theory Spec2Isabelle
  imports Complex_Main
begin

section \<open>Filename normalisation (matrixio.c, add\_fname\_suffix)\<close>

text \<open>
  The C function \<open>strstr(haystack, needle)\<close> returns a pointer to the FIRST occurrence of
  \<open>needle\<close> in \<open>haystack\<close>, or the null pointer when there is none.  A pointer into the
  haystack is modelled by its offset from the start of the haystack, the null pointer by
  \<open>None\<close>.
\<close>

fun strstr :: "string \<Rightarrow> string \<Rightarrow> nat option" where
  "strstr [] needle = (if needle = [] then Some 0 else None)"
| "strstr (c # cs) needle =
     (if take (length needle) (c # cs) = needle then Some 0
      else map_option Suc (strstr cs needle))"

definition FNAME_SUFFIX :: string where
  "FNAME_SUFFIX = ''.h5''"

text \<open>
  \<open>add_fname_suffix\<close> copies \<open>fname\<close> into a fresh buffer and appends the suffix unless
  \<open>strstr(new_fname, FNAME_SUFFIX)\<close> is the pointer \<open>new_fname + oldlen - suflen\<close>.  The
  offset \<open>oldlen - suflen\<close> is computed on C \<open>int\<close>s and may be negative (a name shorter
  than the suffix); no result of \<open>strstr\<close> is equal to such a pointer.  The argument is a
  non-null C string; the allocation is taken to succeed.
\<close>

definition add_fname_suffix :: "string \<Rightarrow> string" where
  "add_fname_suffix fname =
     (let oldlen = int (length fname);
          suflen = int (length FNAME_SUFFIX);
          new_fname = fname
      in if map_option int (strstr new_fname FNAME_SUFFIX) \<noteq> Some (oldlen - suflen)
         then new_fname @ FNAME_SUFFIX
         else new_fname)"

section \<open>Machine integers\<close>

text \<open>
  \<open>hsize_t\<close> is an unsigned 64-bit integer, modelled as a \<open>nat\<close> below \<open>2 ^ 64\<close>.
  Assigning a C \<open>int\<close> (or the signed \<open>hssize_t\<close>) to an \<open>hsize_t\<close> reduces it modulo
  \<open>2 ^ 64\<close>; the product of two \<open>hsize_t\<close> wraps around.
\<close>

definition hsize_of_int :: "int \<Rightarrow> nat" where
  "hsize_of_int i = nat (i mod 2 ^ 64)"

definition hsize_mul :: "nat \<Rightarrow> nat \<Rightarrow> nat" where
  "hsize_mul a b = (a * b) mod 2 ^ 64"

section \<open>The container library\<close>

text \<open>
  Modelled from the spec: the HDF5 calls that \<open>matrixio.c\<close> makes (\<open>H5Screate_simple\<close>,
  \<open>H5Sselect_hyperslab\<close>, \<open>H5Dcreate\<close>, \<open>H5Dopen\<close>, \<open>H5Dget_space\<close>, \<open>H5Dwrite\<close>,
  \<open>H5Dread\<close>, \<open>H5Dclose\<close>, \<open>H5Acreate\<close>/\<open>H5Awrite\<close>) belong to the external container
  library, which is not part of the repository.  They are modelled at the logical level of
  the spec's sections 3, 4.5 and 4.6: a dataset is a named array of fixed rank and extents
  stored in row-major order; a selection is a hyperslab given by per-axis start, stride
  and count; a transfer pairs the n-th element of the memory selection with the n-th
  element of the file selection, both enumerated in row-major order (last axis fastest);
  a transfer whose selections do not lie inside their extents, or do not select the same
  number of elements, is rejected by the library as a whole and moves nothing.  The
  library reports failure through its return value; an identifier is a non-negative
  integer, and a failed creation or opening returns a negative one.
\<close>

record 'v dataset =
  ds_dims :: "nat list"
  ds_data :: "'v list"
  ds_attrs :: "(string \<times> string) list"

datatype selection =
  Select_all
  | Select_hyperslab "int list" "nat list" "nat list"

record dataspace =
  extent :: "nat list"
  selection :: selection

text \<open>
  The state of the library for one container: the identifier and path of the open
  container file (if any), its datasets by name, the open dataset identifiers, and the
  next fresh identifier.
\<close>

record 'v h5lib =
  container :: "(int \<times> string) option"
  datasets :: "string \<rightharpoonup> 'v dataset"
  handles :: "int \<rightharpoonup> string"
  next_id :: int

definition lookup_dataset :: "'v h5lib \<Rightarrow> int \<Rightarrow> (string \<times> 'v dataset) option" where
  "lookup_dataset lib data_id =
     (case handles lib data_id of
        None \<Rightarrow> None
      | Some name \<Rightarrow>
          (case datasets lib name of None \<Rightarrow> None | Some ds \<Rightarrow> Some (name, ds)))"

definition H5Screate_simple :: "nat list \<Rightarrow> dataspace option" where
  "H5Screate_simple dims =
     (if dims = [] then None else Some \<lparr>extent = dims, selection = Select_all\<rparr>)"

definition H5Sselect_hyperslab ::
  "dataspace option \<Rightarrow> int list \<Rightarrow> nat list option \<Rightarrow> nat list \<Rightarrow> dataspace option" where
  "H5Sselect_hyperslab space_id start stride count =
     (case space_id of
        None \<Rightarrow> None
      | Some sp \<Rightarrow>
          Some (sp\<lparr>selection :=
            Select_hyperslab start
              (case stride of None \<Rightarrow> replicate (length (extent sp)) 1 | Some sd \<Rightarrow> sd)
              count\<rparr>))"

definition H5Dget_space :: "'v h5lib \<Rightarrow> int \<Rightarrow> dataspace option" where
  "H5Dget_space lib data_id =
     (case lookup_dataset lib data_id of
        None \<Rightarrow> None
      | Some (name, ds) \<Rightarrow> Some \<lparr>extent = ds_dims ds, selection = Select_all\<rparr>)"

definition H5Sget_simple_extent_ndims :: "dataspace option \<Rightarrow> int" where
  "H5Sget_simple_extent_ndims space_id =
     (case space_id of None \<Rightarrow> - 1 | Some sp \<Rightarrow> int (length (extent sp)))"

definition H5Sget_simple_extent_dims :: "dataspace option \<Rightarrow> nat list" where
  "H5Sget_simple_extent_dims space_id =
     (case space_id of None \<Rightarrow> [] | Some sp \<Rightarrow> extent sp)"

text \<open>The coordinates a hyperslab selects along one axis, in increasing order.\<close>

definition axis_coords :: "int \<Rightarrow> nat \<Rightarrow> nat \<Rightarrow> nat list" where
  "axis_coords st sd n = map (\<lambda>k. nat st + k * sd) [0..<n]"

text \<open>The selected points in row-major order: the last axis varies fastest.\<close>

definition sel_points :: "dataspace \<Rightarrow> nat list list" where
  "sel_points sp =
     (case selection sp of
        Select_all \<Rightarrow> product_lists (map (\<lambda>d. [0..<d]) (extent sp))
      | Select_hyperslab st sd n \<Rightarrow>
          product_lists (map (\<lambda>(s, d, c). axis_coords s d c) (zip st (zip sd n))))"

definition axis_valid :: "nat \<Rightarrow> int \<Rightarrow> nat \<Rightarrow> nat \<Rightarrow> bool" where
  "axis_valid e st sd n = (0 \<le> st \<and> 0 < sd \<and> (n = 0 \<or> nat st + (n - 1) * sd < e))"

definition select_valid :: "dataspace \<Rightarrow> bool" where
  "select_valid sp =
     (case selection sp of
        Select_all \<Rightarrow> True
      | Select_hyperslab st sd n \<Rightarrow>
          length st = length (extent sp) \<and> length sd = length (extent sp) \<and>
          length n = length (extent sp) \<and>
          list_all (\<lambda>(e, s, d, c). axis_valid e s d c) (zip (extent sp) (zip st (zip sd n))))"

text \<open>The row-major offset of a point in an array of the given extents.\<close>

fun flat_index :: "nat list \<Rightarrow> nat list \<Rightarrow> nat" where
  "flat_index (d # ds) (i # is) = i * prod_list ds + flat_index ds is"
| "flat_index _ _ = 0"

definition sel_offsets :: "dataspace \<Rightarrow> nat list" where
  "sel_offsets sp = map (flat_index (extent sp)) (sel_points sp)"

definition transfer_ok :: "dataspace \<Rightarrow> dataspace \<Rightarrow> bool" where
  "transfer_ok mem_space file_space =
     (select_valid mem_space \<and> select_valid file_space \<and>
      length (sel_points mem_space) = length (sel_points file_space))"

definition H5Dcreate ::
  "('v::zero) h5lib \<Rightarrow> string \<Rightarrow> dataspace option \<Rightarrow> int \<times> 'v h5lib" where
  "H5Dcreate lib name space_id =
     (case space_id of
        None \<Rightarrow> (- 1, lib)
      | Some sp \<Rightarrow>
          if datasets lib name \<noteq> None then (- 1, lib)
          else (next_id lib,
                lib\<lparr>datasets := (datasets lib)(name \<mapsto>
                       \<lparr>ds_dims = extent sp,
                        ds_data = replicate (prod_list (extent sp)) 0,
                        ds_attrs = []\<rparr>),
                    handles := (handles lib)(next_id lib \<mapsto> name),
                    next_id := next_id lib + 1\<rparr>))"

definition H5Dopen :: "'v h5lib \<Rightarrow> string \<Rightarrow> int \<times> 'v h5lib" where
  "H5Dopen lib name =
     (if datasets lib name = None then (- 1, lib)
      else (next_id lib,
            lib\<lparr>handles := (handles lib)(next_id lib \<mapsto> name),
                next_id := next_id lib + 1\<rparr>))"

definition H5Dclose :: "'v h5lib \<Rightarrow> int \<Rightarrow> 'v h5lib" where
  "H5Dclose lib data_id = lib\<lparr>handles := (handles lib)(data_id := None)\<rparr>"

definition H5Dwrite ::
  "'v h5lib \<Rightarrow> int \<Rightarrow> dataspace option \<Rightarrow> dataspace option \<Rightarrow> (nat \<Rightarrow> 'v) \<Rightarrow> 'v h5lib" where
  "H5Dwrite lib data_id mem_space_id space_id buf =
     (case (lookup_dataset lib data_id, mem_space_id, space_id) of
        (Some (name, ds), Some ms, Some fs) \<Rightarrow>
          if extent fs = ds_dims ds \<and> transfer_ok ms fs
          then lib\<lparr>datasets := (datasets lib)(name \<mapsto>
                 ds\<lparr>ds_data :=
                   fold (\<lambda>(fo, mo) dat. dat[fo := buf mo])
                     (zip (sel_offsets fs) (sel_offsets ms)) (ds_data ds)\<rparr>)\<rparr>
          else lib
      | _ \<Rightarrow> lib)"

definition H5Dread ::
  "'v h5lib \<Rightarrow> int \<Rightarrow> dataspace option \<Rightarrow> dataspace option \<Rightarrow> (nat \<Rightarrow> 'v) \<Rightarrow> (nat \<Rightarrow> 'v)" where
  "H5Dread lib data_id mem_space_id space_id buf =
     (case (lookup_dataset lib data_id, mem_space_id, space_id) of
        (Some (name, ds), Some ms, Some fs) \<Rightarrow>
          if extent fs = ds_dims ds \<and> transfer_ok ms fs
          then fold (\<lambda>(mo, fo) b. b(mo := ds_data ds ! fo))
                 (zip (sel_offsets ms) (sel_offsets fs)) buf
          else buf
      | _ \<Rightarrow> buf)"

definition H5Aattach :: "'v h5lib \<Rightarrow> int \<Rightarrow> string \<Rightarrow> string \<Rightarrow> 'v h5lib" where
  "H5Aattach lib obj_id name val =
     (case lookup_dataset lib obj_id of
        None \<Rightarrow> lib
      | Some (dname, ds) \<Rightarrow>
          lib\<lparr>datasets := (datasets lib)(dname \<mapsto>
                 ds\<lparr>ds_attrs := ds_attrs ds @ [(name, val)]\<rparr>)\<rparr>)"

section \<open>The matrixio layer (matrixio.c)\<close>

text \<open>
  \<open>CHECK(cond, msg)\<close> ends the whole run with the message when the condition fails.  A
  function that can end the run returns a sum: \<open>Inl msg\<close> is the fatal error, \<open>Inr\<close> the
  normal return.  \<open>and_then\<close> sequences two such steps.  \<open>mpi_is_master()\<close> is supplied by
  the process group and is passed as a parameter.  Allocations are taken to succeed,
  except the one of a negative number of elements.
\<close>

definition and_then :: "string + 'a \<Rightarrow> ('a \<Rightarrow> string + 'b) \<Rightarrow> string + 'b" where
  "and_then r f = (case r of Inl msg \<Rightarrow> Inl msg | Inr x \<Rightarrow> f x)"

definition add_string_attr ::
  "'v h5lib \<Rightarrow> bool \<Rightarrow> int \<Rightarrow> string option \<Rightarrow> string option \<Rightarrow> string + 'v h5lib" where
  "add_string_attr lib mpi_is_master obj_id name val =
     (if \<not> mpi_is_master then Inr lib
      else
        (case (name, val) of
           (Some (n # ns), Some (v # vs)) \<Rightarrow>
             (let lib' = H5Aattach lib obj_id (n # ns) (v # vs)
              in if \<not> obj_id \<ge> 0 then Inl ''error creating HDF attr'' else Inr lib')
         | _ \<Rightarrow> Inr lib))"

text \<open>
  \<open>matrixio_create\<close> opens the container for truncating write under the normalised name;
  the library call is taken to succeed.
\<close>

definition matrixio_create :: "'v h5lib \<Rightarrow> string \<Rightarrow> int \<times> 'v h5lib" where
  "matrixio_create lib fname =
     (let new_fname = add_fname_suffix fname;
          file_id = next_id lib
      in (file_id, lib\<lparr>container := Some (file_id, new_fname), datasets := Map.empty,
                 next_id := next_id lib + 1\<rparr>))"

definition matrixio_close :: "'v h5lib \<Rightarrow> int \<Rightarrow> 'v h5lib" where
  "matrixio_close lib file_id =
     (case container lib of
        None \<Rightarrow> lib
      | Some (fid, path) \<Rightarrow> if fid = file_id then lib\<lparr>container := None\<rparr> else lib)"

text \<open>
  \<open>matrixio_create_dataset\<close>: the parent identifier is the one container of the model
  and is left out.
\<close>

definition matrixio_create_dataset ::
  "('v::zero) h5lib \<Rightarrow> bool \<Rightarrow> string \<Rightarrow> string option \<Rightarrow> int \<Rightarrow> int list \<Rightarrow>
     string + (int \<times> 'v h5lib)" where
  "matrixio_create_dataset lib mpi_is_master name description rank dims =
     (if \<not> rank > 0 then Inl ''non-positive rank''
      else
        (let dims_copy = map (\<lambda>i. hsize_of_int (dims ! i)) [0..<nat rank];
             space_id = H5Screate_simple dims_copy;
             (data_id, lib1) = H5Dcreate lib name space_id
         in and_then (add_string_attr lib1 mpi_is_master data_id (Some ''description'') description)
              (\<lambda>lib2. Inr (data_id, lib2))))"

definition matrixio_close_dataset :: "'v h5lib \<Rightarrow> int \<Rightarrow> 'v h5lib" where
  "matrixio_close_dataset lib data_id = H5Dclose lib data_id"

text \<open>
  \<open>matrixio_write_real_data\<close>.  The rank is read from the dataset; for an invalid
  identifier it is negative, the allocation of \<open>rank\<close> elements fails and the
  out-of-memory \<open>CHECK\<close> ends the run.  The arrays \<open>local_dims\<close> and \<open>local_start\<close> are
  read at the indices below the rank.  A dataset has at least one axis, so \<open>rank - 1\<close> is
  an index of the arrays.  The status that \<open>H5Dwrite\<close> returns is not looked at.

  \<open>write_selections\<close> is the middle part of the function (the two loops and the
  selection calls between them): it returns the memory dataspace and the file dataspace
  handed to \<open>H5Dwrite\<close>.
\<close>

definition write_selections ::
  "dataspace option \<Rightarrow> nat \<Rightarrow> int list \<Rightarrow> int list \<Rightarrow> int \<Rightarrow>
     dataspace option \<times> dataspace option" where
  "write_selections space_id r local_dims local_start stride =
     (let start = map (\<lambda>i. local_start ! i) [0..<r];
          count = map (\<lambda>i. hsize_of_int (local_dims ! i)) [0..<r];
          strides = replicate r (1::nat);
          space_id = H5Sselect_hyperslab space_id start None count;
          start = replicate r (0::int);
          strides = strides[r - 1 := hsize_of_int stride];
          count = count[r - 1 := hsize_mul (count ! (r - 1)) (hsize_of_int stride)];
          mem_space_id = H5Screate_simple count;
          count = count[r - 1 := hsize_of_int (local_dims ! (r - 1))];
          mem_space_id =
            H5Sselect_hyperslab mem_space_id start
              (if stride \<le> 1 then None else Some strides) count
      in (mem_space_id, space_id))"

definition matrixio_write_real_data ::
  "'v h5lib \<Rightarrow> int \<Rightarrow> int list \<Rightarrow> int list \<Rightarrow> int \<Rightarrow> (nat \<Rightarrow> 'v) \<Rightarrow> string + 'v h5lib" where
  "matrixio_write_real_data lib data_id local_dims local_start stride data =
     (let space_id = H5Dget_space lib data_id;
          rank = H5Sget_simple_extent_ndims space_id
      in if rank < 0 then Inl ''out of memory!''
         else
           (let (mem_space_id, space_id) =
                  write_selections space_id (nat rank) local_dims local_start stride
            in Inr (H5Dwrite lib data_id mem_space_id space_id data)))"

text \<open>
  \<open>matrixio_read_real_data\<close> returns the outcome together with the output buffer as it
  is when the call ends: on a fatal error, the buffer the run dies with.  The comparison
  \<open>dims_copy[i] == dims[i]\<close> is made on \<open>hsize_t\<close>, after the conversion of the declared
  \<open>int\<close>.  \<open>read_selections\<close> is the part of the function after the checks that builds
  the memory dataspace and the file dataspace handed to \<open>H5Dread\<close>.
\<close>

definition read_selections ::
  "dataspace option \<Rightarrow> nat list \<Rightarrow> nat \<Rightarrow> int list \<Rightarrow> int \<Rightarrow> int \<Rightarrow> int \<Rightarrow>
     dataspace option \<times> dataspace option" where
  "read_selections space_id dims_copy r dims local_dim0 local_dim0_start stride =
     (let start = replicate r (0::int);
          strides = replicate r (1::nat);
          count = map (\<lambda>i. hsize_of_int (dims ! i)) [0..<r];
          dims_copy = dims_copy[0 := hsize_of_int local_dim0];
          dims_copy = dims_copy[r - 1 := hsize_mul (dims_copy ! (r - 1)) (hsize_of_int stride)];
          start = start[0 := 0];
          strides = strides[r - 1 := hsize_of_int stride];
          count = count[0 := hsize_of_int local_dim0];
          mem_space_id = H5Screate_simple dims_copy;
          mem_space_id = H5Sselect_hyperslab mem_space_id start (Some strides) count;
          start = start[0 := local_dim0_start];
          count = count[0 := hsize_of_int local_dim0];
          space_id = H5Sselect_hyperslab space_id start None count
      in (mem_space_id, space_id))"

definition matrixio_read_real_data ::
  "'v h5lib \<Rightarrow> string \<Rightarrow> int \<Rightarrow> int list \<Rightarrow> int \<Rightarrow> int \<Rightarrow> int \<Rightarrow> (nat \<Rightarrow> 'v) \<Rightarrow>
     (string + 'v h5lib) \<times> (nat \<Rightarrow> 'v)" where
  "matrixio_read_real_data lib name rank dims local_dim0 local_dim0_start stride data =
     (if \<not> rank > 0 then (Inl ''non-positive rank'', data)
      else
        (let (data_id, lib1) = H5Dopen lib name;
             space_id = H5Dget_space lib1 data_id
         in if \<not> rank = H5Sget_simple_extent_ndims space_id
            then (Inl ''rank in HDF5 file doesn't match expected rank'', data)
            else
              (let dims_copy = H5Sget_simple_extent_dims space_id
               in if \<not> list_all (\<lambda>i. dims_copy ! i = hsize_of_int (dims ! i)) [0..<nat rank]
                  then (Inl ''array size in HDF5 file doesn't match expected size'', data)
                  else
                    (let (mem_space_id, space_id) =
                           read_selections space_id dims_copy (nat rank) dims
                             local_dim0 local_dim0_start stride;
                         data' = H5Dread lib1 data_id mem_space_id space_id data
                     in (Inr (H5Dclose lib1 data_id), data')))))"

section \<open>Collective group creation (matrixio.c, matrixio\_create\_sub)\<close>

text \<open>
  \<open>matrixio_create_sub\<close> is run by every process of the worker group.  Its effect on the
  shared container is the sequence of calls it makes, which depends on the branch taken:
  the master calls \<open>H5Gcreate\<close>, \<open>add_string_attr\<close> (which attaches the description when
  there is one), \<open>H5Fflush\<close> and then \<open>MPI_Barrier\<close>; every other process calls
  \<open>MPI_Barrier\<close> and then \<open>H5Gopen\<close>.

  Modelled from the spec: \<open>mpi_is_master\<close> and \<open>MPI_Barrier\<close> belong to the process-group
  collaborator, which is not part of the repository's files.  By sections 4.3 and 5 the
  coordinator is one fixed process, here the process of rank 0 (\<open>process_is_master\<close> is
  what \<open>mpi_is_master()\<close> returns in the process of a given rank), and all the
  participants synchronise at the barrier: a process that has entered the barrier leaves
  it only when every process of the group has entered it.
\<close>

datatype action = Gcreate | Attr | Flush | Barrier | Gopen

definition process_is_master :: "nat \<Rightarrow> bool" where
  "process_is_master rank = (rank = 0)"

definition matrixio_create_sub :: "nat \<Rightarrow> action list" where
  "matrixio_create_sub rank =
     (if process_is_master rank then [Gcreate, Attr, Flush, Barrier] else [Barrier, Gopen])"

text \<open>
  The \<open>K\<close> processes run interleaved.  A state of the group holds, for every process,
  the calls it still has to make and whether it has entered the barrier, and the trace of
  the calls made so far, the newest first.  \<open>step K p\<close> lets process \<open>p\<close> make its next
  move: a library call is made and recorded; \<open>MPI_Barrier\<close> is entered (and recorded)
  at the first move and left at a later one, once every process has entered; the move of a
  blocked or returned process changes nothing.  A schedule is the list of the processes
  that move, in order: the schedules cover every order in which the processes can run and
  arrive at the barrier.
\<close>

record world =
  progs :: "nat \<Rightarrow> action list"
  arrived :: "nat \<Rightarrow> bool"
  trace :: "(nat \<times> action) list"

definition init :: world where
  "init = \<lparr>progs = matrixio_create_sub, arrived = (\<lambda>p. False), trace = []\<rparr>"

definition all_arrived :: "nat \<Rightarrow> world \<Rightarrow> bool" where
  "all_arrived K w = list_all (arrived w) [0..<K]"

definition step :: "nat \<Rightarrow> nat \<Rightarrow> world \<Rightarrow> world" where
  "step K p w =
     (if \<not> p < K then w
      else
        (case progs w p of
           [] \<Rightarrow> w
         | a # rest \<Rightarrow>
             if a = Barrier
             then (if \<not> arrived w p
                   then w\<lparr>arrived := (arrived w)(p := True), trace := (p, Barrier) # trace w\<rparr>
                   else if all_arrived K w then w\<lparr>progs := (progs w)(p := rest)\<rparr>
                   else w)
             else w\<lparr>progs := (progs w)(p := rest), trace := (p, a) # trace w\<rparr>))"

definition run :: "nat \<Rightarrow> nat list \<Rightarrow> world" where
  "run K sched = fold (step K) sched init"

definition finished :: "nat \<Rightarrow> world \<Rightarrow> bool" where
  "finished K w = list_all (\<lambda>p. progs w p = []) [0..<K]"

text \<open>
  \<open>creations\<close> counts the \<open>H5Gcreate\<close> calls of a trace.  \<open>protocol_order\<close> checks
  the order of a trace: when a process opens the group, every process of the group has
  entered the barrier before; when the master enters the barrier it has flushed before,
  has called \<open>add_string_attr\<close> before the flush and \<open>H5Gcreate\<close> before that.
  \<open>remaining\<close> bounds the number of moves still to come.
\<close>

definition creations :: "world \<Rightarrow> nat" where
  "creations w = length (filter (\<lambda>(p, a). a = Gcreate) (trace w))"

fun protocol_order :: "nat \<Rightarrow> (nat \<times> action) list \<Rightarrow> bool" where
  "protocol_order K [] = True"
| "protocol_order K ((p, a) # tr) =
     ((a = Gopen \<longrightarrow> list_all (\<lambda>q. (q, Barrier) \<in> set tr) [0..<K]) \<and>
      (a = Barrier \<and> p = 0 \<longrightarrow> (0, Flush) \<in> set tr) \<and>
      (a = Flush \<longrightarrow> (0, Attr) \<in> set tr) \<and>
      (a = Attr \<longrightarrow> (0, Gcreate) \<in> set tr) \<and>
      protocol_order K tr)"

definition remaining :: "nat \<Rightarrow> world \<Rightarrow> nat" where
  "remaining K w = (\<Sum>p<K. 2 * length (progs w p) + (if arrived w p then 0 else 1))"

text \<open>The invariant of the reachable states of the group.\<close>

definition Inv :: "nat \<Rightarrow> world \<Rightarrow> bool" where
  "Inv K w \<longleftrightarrow>
     progs w 0 \<in> {[Gcreate, Attr, Flush, Barrier], [Attr, Flush, Barrier], [Flush, Barrier], [Barrier], []} \<and>
     (\<forall>p>0. progs w p \<in> {[Barrier, Gopen], [Gopen], []}) \<and>
     (\<forall>p<K. arrived w p \<longleftrightarrow> (p, Barrier) \<in> set (trace w)) \<and>
     (arrived w 0 \<longrightarrow> progs w 0 \<in> {[Barrier], []}) \<and>
     (progs w 0 = [] \<longrightarrow> all_arrived K w) \<and>
     (\<forall>p>0. p < K \<longrightarrow> progs w p \<noteq> [Barrier, Gopen] \<longrightarrow> all_arrived K w) \<and>
     ((0, Gcreate) \<in> set (trace w) \<longleftrightarrow> length (progs w 0) \<le> 3) \<and>
     ((0, Attr) \<in> set (trace w) \<longleftrightarrow> length (progs w 0) \<le> 2) \<and>
     ((0, Flush) \<in> set (trace w) \<longleftrightarrow> length (progs w 0) \<le> 1) \<and>
     creations w = (if length (progs w 0) \<le> 3 then 1 else 0) \<and>
     (\<forall>(p, a)\<in>set (trace w). a \<in> {Gcreate, Attr, Flush} \<longrightarrow> p = 0) \<and>
     protocol_order K (trace w)"

section \<open>Writing the spectral density of states (sdos.c, get\_sdos)\<close>

text \<open>
  \<open>get_sdos\<close> computes the spectral density of states and writes it, with three
  metadata arrays, to a container.  The floating-point part of the function (\<open>myround\<close>,
  the overlap sums of \<open>BtH_overlap\<close> and the summation loops) is outside the model; its
  results enter as parameters: the rounded index bounds \<open>iG1_min\<close>, ..., \<open>iG3_max\<close>, the
  array \<open>sdos\<close>, the wavevector \<open>current_k\<close> of the solver state and the file name
  \<open>savename\<close> that \<open>fix_fname\<close> returns.

  \<open>BtH_overlap\<close> is called before any file is created and begins with a sequence of
  \<open>CHECK\<close>s on the requested index ranges and bands; they are modelled, in the order of
  the source, over the solver state they read: the grid sizes \<open>nx\<close>, \<open>ny\<close>, \<open>nz\<close> of
  \<open>mdata\<close> and the global \<open>num_bands\<close>.  The solver state is taken to be initialised
  (\<open>mdata\<close> is dereferenced before the \<open>CHECK\<close> on it) and the allocations to succeed;
  an allocation that fails aborts the run as well, also before any file is created.
  \<open>c_div\<close> is the division of C \<open>int\<close>s, which truncates towards zero.

  \<open>get_sdos\<close> follows the source from its array declarations on: \<open>iGspan\<close>,
  \<open>freqspan\<close> and the \<open>iodims\<close> arrays as the initialisers give them, the call of
  \<open>BtH_overlap\<close>, then the calls from \<open>matrixio_create\<close> to \<open>matrixio_close\<close> in the
  order of the source, the variable \<open>data_id\<close> being assigned four times.  The sums and
  products of C \<open>int\<close>s are taken to be in range.
\<close>

definition c_div :: "int \<Rightarrow> int \<Rightarrow> int" where
  "c_div a b = sgn a * sgn b * (\<bar>a\<bar> div \<bar>b\<bar>)"

definition BtH_overlap ::
  "int \<Rightarrow> int \<Rightarrow> int \<Rightarrow> int \<Rightarrow> int \<Rightarrow> int \<Rightarrow>
     int \<Rightarrow> int \<Rightarrow> int \<Rightarrow> int \<Rightarrow> int \<Rightarrow> int \<Rightarrow> string + unit" where
  "BtH_overlap nx ny nz num_bands band_min n_bands
       iG1_min iG2_min iG3_min iG1_max iG2_max iG3_max =
     (if \<not> (iG1_min \<le> iG1_max \<and> iG2_min \<le> iG2_max \<and> iG3_min \<le> iG3_max)
      then Inl ''req'ed G vectors must be incrementing (min<=max)''
      else if \<not> ((iG1_min > c_div (- nx) 2 \<and> iG1_max \<le> c_div nx 2) \<or>
                  (iG1_min = iG1_max \<and> iG1_max = nx - 1 \<and> nx - 1 = 0))
      then Inl ''iG1 out of bounds''
      else if \<not> ((iG2_min > c_div (- ny) 2 \<and> iG2_max \<le> c_div ny 2) \<or>
                  (iG2_min = iG2_max \<and> iG2_max = ny - 1 \<and> ny - 1 = 0))
      then Inl ''iG2 out of bounds''
      else if \<not> ((iG3_min > c_div (- nz) 2 \<and> iG3_max \<le> c_div nz 2) \<or>
                  (iG3_min = iG3_max \<and> iG3_max = nz - 1 \<and> nz - 1 = 0))
      then Inl ''iG3 out of bounds''
      else if \<not> band_min + n_bands \<le> num_bands
      then Inl ''not enough bands in shift_overlap''
      else Inr ())"

definition get_sdos ::
  "real h5lib \<Rightarrow> bool \<Rightarrow> int \<Rightarrow> int \<Rightarrow> int \<Rightarrow> int \<Rightarrow> string \<Rightarrow> real \<Rightarrow> real \<Rightarrow> int \<Rightarrow>
     int \<Rightarrow> int \<Rightarrow>
     int \<Rightarrow> int \<Rightarrow> int \<Rightarrow> int \<Rightarrow> int \<Rightarrow> int \<Rightarrow> (nat \<Rightarrow> real) \<Rightarrow> (nat \<Rightarrow> real) \<Rightarrow>
     string + real h5lib" where
  "get_sdos lib mpi_is_master nx ny nz num_bands savename freq_min freq_max freq_num
       band_min n_bands
       iG1_min iG1_max iG2_min iG2_max iG3_min iG3_max sdos current_k =
     (let nG1 = iG1_max - iG1_min + 1;
          nG2 = iG2_max - iG2_min + 1;
          nG3 = iG3_max - iG3_min + 1;
          nG = nG1 * nG2 * nG3;
          iGspan = map real_of_int [iG1_min, iG1_max, iG2_min, iG2_max, iG2_min, iG2_max];
          freqspan = [freq_min, freq_max, real_of_int freq_num];
          iodims0 = [freq_num * nG];
          iodims1 = [3];
          iodims2 = [6];
          iodims3 = [1];
          iostart = [0]
      in and_then (BtH_overlap nx ny nz num_bands band_min n_bands
                     iG1_min iG2_min iG3_min iG1_max iG2_max iG3_max)
          (\<lambda>_.
             (let (file_id, lib) = matrixio_create lib savename
      in and_then (matrixio_create_dataset lib mpi_is_master ''sdos''
                     (Some ''remember to unfold'') 1 iodims0)
          (\<lambda>(data_id, lib).
      and_then (matrixio_write_real_data lib data_id iodims0 iostart 1 sdos)
          (\<lambda>lib.
      and_then (matrixio_create_dataset lib mpi_is_master ''freqspan''
                     (Some ''freq_min, freq_max, freq_num'') 1 iodims1)
          (\<lambda>(data_id, lib).
      and_then (matrixio_write_real_data lib data_id iodims1 iostart 1 ((!) freqspan))
          (\<lambda>lib.
      and_then (matrixio_create_dataset lib mpi_is_master ''iGspan''
                     (Some ''iG1_min, iG1_max, iG2_min, iG2_max, iG3_min, iG3_max'') 1 iodims2)
          (\<lambda>(data_id, lib).
      and_then (matrixio_write_real_data lib data_id iodims2 iostart 1 ((!) iGspan))
          (\<lambda>lib.
      and_then (matrixio_create_dataset lib mpi_is_master ''kpoint'' (Some ''NULL'') 1 iodims3)
          (\<lambda>(data_id, lib).
      and_then (matrixio_write_real_data lib data_id iodims3 iostart 1 current_k)
          (\<lambda>lib.
             (let lib = matrixio_close_dataset lib data_id;
                  lib = matrixio_close lib file_id
              in Inr lib))))))))))))"

section \<open>Index spaces\<close>

text \<open>
  \<open>grid ns\<close> lists the points of a box of shape \<open>ns\<close> in row-major order;
  \<open>slab_point st sd p\<close> is the point a hyperslab with start \<open>st\<close> and stride \<open>sd\<close>
  selects at the grid index \<open>p\<close>.  \<open>hyperslab_positions\<close> lists the global positions of
  the hyperslab that a write call contributes: on every axis, the interval from
  \<open>local_start\<close> of length \<open>local_dims\<close>.  \<open>buffer_slot\<close> is the index-space
  translation of section 4.5: the slot of the caller's buffer that holds the element for a
  global position, the buffer's last axis being expanded by the stride.
\<close>

definition grid :: "nat list \<Rightarrow> nat list list" where
  "grid ns = product_lists (map (\<lambda>n. [0..<n]) ns)"

definition slab_point :: "int list \<Rightarrow> nat list \<Rightarrow> nat list \<Rightarrow> nat list" where
  "slab_point st sd p = map (\<lambda>(s, d, k). nat s + k * d) (zip st (zip sd p))"







section \<open>Example states\<close>

text \<open>
  A container with one stored dataset \<open>m\<close> of shape \<open>2 \<times> 3\<close>, open under the
  identifier 1, and an all-zero buffer.  They serve as concrete inputs below.
\<close>

definition example_dataset :: "real dataset" where
  "example_dataset = \<lparr>ds_dims = [2, 3], ds_data = [10, 11, 12, 0, 2, 4], ds_attrs = []\<rparr>"

definition example_lib :: "real h5lib" where
  "example_lib =
     \<lparr>container = Some (0, ''run.h5''), datasets = [''m'' \<mapsto> example_dataset],
      handles = [1 \<mapsto> ''m''], next_id = 2\<rparr>"

definition fresh_buffer :: "nat \<Rightarrow> real" where
  "fresh_buffer = (\<lambda>n. 0)"

text \<open>A schedule of three processes in which process 2 reaches the barrier first.\<close>

definition example_schedule :: "nat list" where
  "example_schedule = [2, 0, 1, 0, 2, 0, 0, 1, 2, 0, 1, 1, 2, 2]"

text \<open>The library before any container is open.\<close>

definition initial_lib :: "real h5lib" where
  "initial_lib = \<lparr>container = None, datasets = Map.empty, handles = Map.empty, next_id = 0\<rparr>"



definition ramp :: "real \<Rightarrow> nat \<Rightarrow> real" where
  "ramp c = (\<lambda>n. c + real n)"


section \<open>Properties of the filename normaliser\<close>

lemma strstr_Some_take:
  "strstr hay needle = Some k \<Longrightarrow> take (length needle) (drop k hay) = needle"
proof (induction hay arbitrary: k)
  case Nil
  then show ?case by (simp split: if_splits)
next
  case (Cons c cs)
  show ?case
  proof (cases "take (length needle) (c # cs) = needle")
    case True
    with Cons.prems show ?thesis by simp
  next
    case False
    with Cons.prems obtain j where "strstr cs needle = Some j" "k = Suc j"
      by auto
    with Cons.IH show ?thesis by simp
  qed
qed

text \<open>
  A name whose tail is not the suffix always gets the suffix appended, also when
  the suffix text occurs earlier in the name.
\<close>

lemma add_fname_suffix_appends:
  assumes "drop (length fname - 3) fname \<noteq> ''.h5'' \<or> length fname < 3"
  shows "add_fname_suffix fname = fname @ ''.h5''"
proof -
  have "strstr fname ''.h5'' \<noteq> Some (length fname - 3) \<or> length fname < 3"
  proof (rule ccontr)
    assume "\<not> ?thesis"
    then have s: "strstr fname ''.h5'' = Some (length fname - 3)" and l: "3 \<le> length fname"
      by auto
    from strstr_Some_take [OF s] have "take 3 (drop (length fname - 3) fname) = ''.h5''"
      by simp
    with l assms show False by simp
  qed
  then show ?thesis
    by (cases "strstr fname ''.h5''") (auto simp: add_fname_suffix_def FNAME_SUFFIX_def Let_def)
qed

text \<open>
  C3 (idempotence of normalisation) fails on the code: \<open>strstr\<close> finds the first occurrence
  of the suffix text, so a name that contains \<open>.h5\<close> before its tail gets one more suffix
  at every call.  Evaluated at \<open>out.h5data\<close>.
\<close>

theorem add_fname_suffix_not_idempotent:
  "add_fname_suffix ''out.h5data'' = ''out.h5data.h5'' \<and>
   add_fname_suffix (add_fname_suffix ''out.h5data'') = ''out.h5data.h5.h5'' \<and>
   add_fname_suffix (add_fname_suffix ''out.h5data'') \<noteq> add_fname_suffix ''out.h5data''"
  by (simp add: add_fname_suffix_def FNAME_SUFFIX_def)

text \<open>
  C4 (the suffix check is an exact tail-equality check) fails on the code: the name
  \<open>a.h5.h5\<close> ends in \<open>.h5\<close>, yet the first occurrence of \<open>.h5\<close> is at offset 1 and not at
  the tail offset 4, so a further suffix is appended.
\<close>

theorem add_fname_suffix_tail_missed:
  "drop (length ''a.h5.h5'' - 3) ''a.h5.h5'' = ''.h5'' \<and>
   add_fname_suffix ''a.h5.h5'' = ''a.h5.h5.h5''"
  by (simp add: add_fname_suffix_def FNAME_SUFFIX_def)

section \<open>Basic facts about the library model\<close>

lemmas h5_defs = H5Dwrite_def H5Dread_def H5Dget_space_def lookup_dataset_def
  H5Sget_simple_extent_ndims_def H5Sget_simple_extent_dims_def H5Sselect_hyperslab_def
  H5Screate_simple_def H5Dopen_def H5Dclose_def transfer_ok_def select_valid_def
  axis_valid_def sel_points_def sel_offsets_def axis_coords_def hsize_of_int_def hsize_mul_def

text \<open>Evaluation of the loops over the axes for ranks 1 and 2.\<close>

lemma upt_rank: "[0..<1] = [0]" "[0..<2] = [0, 1]"
  by (simp_all add: upt_rec)

lemma replicate_rank: "replicate 1 x = [x]" "replicate 2 x = [x, x]"
  by (simp_all add: numeral_2_eq_2)

lemmas rank_eval = upt_rank replicate_rank

lemma hsize_of_int_nonneg: "0 \<le> i \<Longrightarrow> i < 2 ^ 64 \<Longrightarrow> hsize_of_int i = nat i"
  by (simp add: hsize_of_int_def)

lemma hsize_of_int_c_int: "0 \<le> i \<Longrightarrow> i < 2 ^ 31 \<Longrightarrow> hsize_of_int i = nat i"
  by (rule hsize_of_int_nonneg) simp_all


lemma product_lists_empty: "[] \<in> set xss \<Longrightarrow> product_lists xss = []"
  by (induction xss) auto

lemma lookup_dataset_D:
  "lookup_dataset lib data_id = Some (name, ds) \<Longrightarrow>
     handles lib data_id = Some name \<and> datasets lib name = Some ds"
  by (auto simp: lookup_dataset_def split: option.splits)

lemma H5Dopen_space:
  assumes "datasets lib name = Some ds"
  shows "H5Dopen lib name = (data_id, lib1) \<Longrightarrow>
         H5Dget_space lib1 data_id = Some \<lparr>extent = ds_dims ds, selection = Select_all\<rparr>"
  using assms by (auto simp: H5Dopen_def H5Dget_space_def lookup_dataset_def)


lemma select_valid_hyperslab_nth:
  assumes "select_valid sp" "selection sp = Select_hyperslab st sd n" "i < length (extent sp)"
  shows "axis_valid (extent sp ! i) (st ! i) (sd ! i) (n ! i)"
proof -
  from assms have len: "length st = length (extent sp)" "length sd = length (extent sp)"
      "length n = length (extent sp)"
    and all: "list_all (\<lambda>(e, s, d, c). axis_valid e s d c) (zip (extent sp) (zip st (zip sd n)))"
    by (simp_all add: select_valid_def)
  from all len assms(3) show ?thesis
    by (auto simp: list_all_length)
qed

text \<open>A transfer that the library rejects, or that selects nothing, leaves the state as it is.\<close>

lemma H5Dwrite_rejected:
  assumes lk: "lookup_dataset lib data_id = Some (name, ds)"
    and rej: "\<not> select_valid fs \<or> sel_points fs = []"
  shows "H5Dwrite lib data_id mem_space_id (Some fs) data = lib"
proof (cases mem_space_id)
  case None
  then show ?thesis by (simp add: H5Dwrite_def lk)
next
  case (Some ms)
  from lk have d: "datasets lib name = Some ds"
    by (simp add: lookup_dataset_D)
  show ?thesis
  proof (cases "extent fs = ds_dims ds \<and> transfer_ok ms fs")
    case False
    then show ?thesis by (auto simp: H5Dwrite_def lk Some)
  next
    case True
    with rej have "sel_points fs = []"
      by (auto simp: transfer_ok_def)
    then have "sel_offsets fs = []"
      by (simp add: sel_offsets_def)
    moreover have "(datasets lib)(name \<mapsto> ds) = datasets lib"
      using d by (simp add: map_upd_triv)
    ultimately show ?thesis
      using True by (simp add: H5Dwrite_def lk Some)
  qed
qed

lemma write_selections_file:
  "snd (write_selections (Some sp) r local_dims local_start stride) =
     Some (sp\<lparr>selection := Select_hyperslab (map (\<lambda>i. local_start ! i) [0..<r])
              (replicate (length (extent sp)) 1)
              (map (\<lambda>i. hsize_of_int (local_dims ! i)) [0..<r])\<rparr>)"
  by (simp add: write_selections_def H5Sselect_hyperslab_def Let_def)

section \<open>Validation on the read path\<close>

text \<open>
  C5: if the stored rank differs from the declared rank, or the stored extent of an axis
  other than axis 0 differs from the declared one, \<open>matrixio_read_real_data\<close> ends the
  run with a fatal error and the output buffer is the one it was given: no element has
  been transferred.  The declared extents are non-negative C \<open>int\<close>s.
\<close>

theorem read_validation_precedes_transfer:
  assumes ds: "datasets lib name = Some ds"
    and dims: "\<forall>i<nat rank. 0 \<le> dims ! i \<and> dims ! i < 2 ^ 31"
    and mismatch: "rank \<noteq> int (length (ds_dims ds)) \<or>
                   (\<exists>i. 0 < i \<and> i < nat rank \<and> int (ds_dims ds ! i) \<noteq> dims ! i)"
  shows "\<exists>msg. matrixio_read_real_data lib name rank dims local_dim0 local_dim0_start stride data
           = (Inl msg, data)"
proof -
  obtain data_id lib1 where op: "H5Dopen lib name = (data_id, lib1)"
    by (cases "H5Dopen lib name")
  note sp = H5Dopen_space [OF ds op]
  show ?thesis
  proof (cases "rank > 0 \<and> rank = int (length (ds_dims ds))")
    case False
    then show ?thesis
      by (auto simp: matrixio_read_real_data_def op sp H5Sget_simple_extent_ndims_def)
  next
    case True
    with mismatch obtain i where i: "0 < i" "i < nat rank" "int (ds_dims ds ! i) \<noteq> dims ! i"
      by auto
    from dims i have "hsize_of_int (dims ! i) = nat (dims ! i)"
      by (simp add: hsize_of_int_c_int)
    with i dims have "ds_dims ds ! i \<noteq> hsize_of_int (dims ! i)"
      by auto
    with i have "\<not> list_all (\<lambda>i. ds_dims ds ! i = hsize_of_int (dims ! i)) [0..<nat rank]"
      by (auto simp: list_all_iff)
    with True show ?thesis
      by (simp add: matrixio_read_real_data_def op sp H5Sget_simple_extent_ndims_def
          H5Sget_simple_extent_dims_def)
  qed
qed

theorem read_validation_precedes_transfer_witness:
  "datasets example_lib ''m'' = Some example_dataset \<and>
   int (ds_dims example_dataset ! 1) \<noteq> [2, 4] ! 1 \<and>
   (\<exists>msg. matrixio_read_real_data example_lib ''m'' 2 [2, 4] 2 0 1 fresh_buffer
      = (Inl msg, fresh_buffer)) \<and>
   3 \<noteq> int (length (ds_dims example_dataset)) \<and>
   (\<exists>msg. matrixio_read_real_data example_lib ''m'' 3 [2, 3, 1] 2 0 1 fresh_buffer
      = (Inl msg, fresh_buffer))"
proof -
  have ds: "datasets example_lib ''m'' = Some example_dataset"
    by (simp add: example_lib_def)
  have dims: "\<forall>i<nat 2. 0 \<le> [2, 4 :: int] ! i \<and> [2, 4 :: int] ! i < 2 ^ 31"
    by (simp add: nth_Cons split: nat.split)
  have mismatch: "(2::int) \<noteq> int (length (ds_dims example_dataset)) \<or>
      (\<exists>i. 0 < i \<and> i < nat 2 \<and> int (ds_dims example_dataset ! i) \<noteq> [2, 4] ! i)"
    by (rule disjI2, rule exI [where x = 1]) (simp add: example_dataset_def)
  have dims': "\<forall>i<nat 3. 0 \<le> [2, 3, 1 :: int] ! i \<and> [2, 3, 1 :: int] ! i < 2 ^ 31"
    by (simp add: nth_Cons split: nat.split)
  have mismatch': "(3::int) \<noteq> int (length (ds_dims example_dataset)) \<or>
      (\<exists>i. 0 < i \<and> i < nat 3 \<and> int (ds_dims example_dataset ! i) \<noteq> [2, 3, 1] ! i)"
    by (rule disjI1) (simp add: example_dataset_def)
  from read_validation_precedes_transfer [OF ds dims mismatch]
    read_validation_precedes_transfer [OF ds dims' mismatch'] ds
  show ?thesis
    by (simp add: example_dataset_def)
qed

text \<open>
  C10: the distribution axis is validated as well.  When the ranks agree and the declared
  \<open>dims[0]\<close> differs from the stored extent of axis 0, the call ends the run with the
  shape-mismatch message and the buffer it was given, whatever the other axes are.
\<close>

theorem read_validates_axis0:
  assumes ds: "datasets lib name = Some ds"
    and rank: "0 < rank" "rank = int (length (ds_dims ds))"
    and dims: "0 \<le> dims ! 0" "dims ! 0 < 2 ^ 31"
    and mismatch: "int (ds_dims ds ! 0) \<noteq> dims ! 0"
  shows "matrixio_read_real_data lib name rank dims local_dim0 local_dim0_start stride data
           = (Inl ''array size in HDF5 file doesn't match expected size'', data)"
proof -
  obtain data_id lib1 where op: "H5Dopen lib name = (data_id, lib1)"
    by (cases "H5Dopen lib name")
  note sp = H5Dopen_space [OF ds op]
  from dims have "hsize_of_int (dims ! 0) = nat (dims ! 0)"
    by (simp add: hsize_of_int_c_int)
  with mismatch dims have "ds_dims ds ! 0 \<noteq> hsize_of_int (dims ! 0)"
    by auto
  with rank have "\<not> list_all (\<lambda>i. ds_dims ds ! i = hsize_of_int (dims ! i)) [0..<nat rank]"
    by (auto simp: list_all_iff)
  with rank show ?thesis
    by (simp add: matrixio_read_real_data_def op sp H5Sget_simple_extent_ndims_def
        H5Sget_simple_extent_dims_def)
qed

text \<open>
  The caller of the witness owns one of the two rows of \<open>m\<close> and declares its local
  share \<open>[1, 3]\<close> instead of the global shape \<open>[2, 3]\<close>: every other axis matches.
\<close>

theorem read_validates_axis0_witness:
  "[1, 3] ! 1 = int (ds_dims example_dataset ! 1) \<and>
   matrixio_read_real_data example_lib ''m'' 2 [1, 3] 1 0 1 fresh_buffer
     = (Inl ''array size in HDF5 file doesn't match expected size'', fresh_buffer)"
proof -
  have ds: "datasets example_lib ''m'' = Some example_dataset"
    by (simp add: example_lib_def)
  have "matrixio_read_real_data example_lib ''m'' 2 [1, 3] 1 0 1 fresh_buffer
     = (Inl ''array size in HDF5 file doesn't match expected size'', fresh_buffer)"
    by (rule read_validates_axis0 [OF ds]) (simp_all add: example_dataset_def)
  then show ?thesis
    by (simp add: example_dataset_def)
qed

section \<open>Out-of-range hyperslabs on the write path\<close>

text \<open>
  C8 as stated fails on the code: \<open>matrixio_write_real_data\<close> contains no range check.
  Writing a \<open>1 \<times> 4\<close> hyperslab into the \<open>2 \<times> 3\<close> dataset returns normally, with the
  state unchanged.
\<close>

theorem write_out_of_range_counterexample:
  "int (ds_dims example_dataset ! 1) < [0, 0] ! 1 + [1, 4] ! 1 \<and>
   lookup_dataset example_lib 1 = Some (''m'', example_dataset) \<and>
   matrixio_write_real_data example_lib 1 [1, 4] [0, 0] 1 fresh_buffer = Inr example_lib"
  by (simp add: matrixio_write_real_data_def write_selections_def h5_defs example_lib_def
      example_dataset_def Let_def rank_eval)

text \<open>
  C8 as amended: for a write through an open dataset identifier whose hyperslab exceeds
  the dataset's extent on some axis, the call raises no error of its own and returns
  normally; the library rejects the transfer (its status is not looked at) and the state,
  the dataset's contents included, is unchanged.  The local extents are non-negative C
  \<open>int\<close>s.
\<close>

theorem write_out_of_range_unchecked:
  assumes lk: "lookup_dataset lib data_id = Some (name, ds)"
    and rng: "\<forall>i<length (ds_dims ds). 0 \<le> local_dims ! i \<and> local_dims ! i < 2 ^ 31"
    and oor: "\<exists>i<length (ds_dims ds). local_start ! i + local_dims ! i > int (ds_dims ds ! i)"
  shows "matrixio_write_real_data lib data_id local_dims local_start stride data = Inr lib"
proof -
  define r where "r = length (ds_dims ds)"
  define sp where "sp = \<lparr>extent = ds_dims ds, selection = Select_all\<rparr>"
  define fs where "fs = sp\<lparr>selection := Select_hyperslab (map (\<lambda>i. local_start ! i) [0..<r])
              (replicate (length (extent sp)) 1)
              (map (\<lambda>i. hsize_of_int (local_dims ! i)) [0..<r])\<rparr>"
  have space: "H5Dget_space lib data_id = Some sp"
    by (simp add: H5Dget_space_def lk sp_def)
  obtain ms where ws: "write_selections (Some sp) r local_dims local_start stride = (ms, Some fs)"
    using write_selections_file [where sp = sp and r = r and local_dims = local_dims
        and local_start = local_start and stride = stride]
    by (cases "write_selections (Some sp) r local_dims local_start stride") (simp add: fs_def)
  from oor obtain i where i: "i < r" "local_start ! i + local_dims ! i > int (ds_dims ds ! i)"
    by (auto simp: r_def)
  from rng i have cnt: "hsize_of_int (local_dims ! i) = nat (local_dims ! i)"
    by (simp add: hsize_of_int_c_int r_def)
  have rej: "\<not> select_valid fs \<or> sel_points fs = []"
  proof (cases "select_valid fs")
    case False
    then show ?thesis by simp
  next
    case True
    have "axis_valid (extent fs ! i) (local_start ! i) 1 (nat (local_dims ! i))"
      using select_valid_hyperslab_nth [OF True, of _ _ _ i] i cnt
      by (simp add: fs_def sp_def r_def)
    with i have z: "nat (local_dims ! i) = 0"
      by (auto simp: axis_valid_def fs_def sp_def)
    have "axis_coords (local_start ! i) 1 (hsize_of_int (local_dims ! i)) = []"
      using z cnt by (simp add: axis_coords_def)
    moreover have "axis_coords (local_start ! i) 1 (hsize_of_int (local_dims ! i))
       \<in> set (map (\<lambda>(s, d, c). axis_coords s d c)
               (zip (map (\<lambda>i. local_start ! i) [0..<r])
                 (zip (replicate r 1) (map (\<lambda>i. hsize_of_int (local_dims ! i)) [0..<r]))))"
      using i(1)
      by (auto simp: set_zip
          intro!: image_eqI [where x = "(local_start ! i, 1, hsize_of_int (local_dims ! i))"]
            exI [where x = i])
    ultimately have "sel_points fs = []"
      by (simp add: sel_points_def fs_def sp_def r_def [symmetric] product_lists_empty)
    then show ?thesis by simp
  qed
  have ext: "length (extent sp) = r"
    by (simp add: sp_def r_def)
  show ?thesis
    by (simp add: matrixio_write_real_data_def space H5Sget_simple_extent_ndims_def
        ext ws H5Dwrite_rejected [OF lk rej])
qed

theorem write_out_of_range_unchecked_witness:
  "matrixio_write_real_data example_lib 1 [2, 2] [1, 2] 2 fresh_buffer = Inr example_lib"
proof -
  have lk: "lookup_dataset example_lib 1 = Some (''m'', example_dataset)"
    by (simp add: lookup_dataset_def example_lib_def)
  have rng: "\<forall>i<length (ds_dims example_dataset).
      0 \<le> [2, 2 :: int] ! i \<and> [2, 2 :: int] ! i < 2 ^ 31"
    by (simp add: example_dataset_def nth_Cons split: nat.split)
  have oor: "\<exists>i<length (ds_dims example_dataset).
      [1, 2] ! i + [2, 2] ! i > int (ds_dims example_dataset ! i)"
    by (rule exI [where x = 0]) (simp add: example_dataset_def)
  from write_out_of_range_unchecked [OF lk rng oor] show ?thesis .
qed

section \<open>Index spaces and element-wise transfers\<close>







lemma distinct_grid: "distinct (grid ns)"
  unfolding grid_def by (rule distinct_product_lists) auto

















lemma slab_point_shift:
  assumes "length p = r" "length st = r"
  shows "slab_point st (replicate r 1) p = map (\<lambda>(s, k). nat s + k) (zip st p)"
  using assms by (auto simp: slab_point_def intro!: nth_equalityI)
























section \<open>The local selection of a write\<close>




section \<open>Round trip\<close>






section \<open>What get\_sdos leaves in the container\<close>

text \<open>Evaluation of list updates and \<open>replicate\<close> at numerals.\<close>

lemma list_update_numeral: "(x # xs)[numeral k := v] = x # xs[pred_numeral k := v]"
  by (simp add: numeral_eq_Suc)

lemma replicate_numeral_Cons: "replicate (numeral k) x = x # replicate (pred_numeral k) x"
  by (simp add: numeral_eq_Suc)

lemmas sdos_eval = get_sdos_def BtH_overlap_def c_div_def matrixio_create_def matrixio_close_def matrixio_close_dataset_def
  matrixio_create_dataset_def matrixio_write_real_data_def write_selections_def
  add_string_attr_def H5Aattach_def H5Dcreate_def and_then_def h5_defs add_fname_suffix_def
  FNAME_SUFFIX_def initial_lib_def ramp_def Let_def upt_rec list_update_numeral
  replicate_numeral_Cons

text \<open>
  A failed \<open>CHECK\<close> of \<open>BtH_overlap\<close> aborts \<open>get_sdos\<close> before any file is created.
\<close>

lemma get_sdos_checks_first:
  assumes "BtH_overlap nx ny nz num_bands band_min n_bands
      iG1_min iG2_min iG3_min iG1_max iG2_max iG3_max = Inl msg"
  shows "get_sdos lib mpi_is_master nx ny nz num_bands savename freq_min freq_max freq_num
      band_min n_bands iG1_min iG1_max iG2_min iG2_max iG3_min iG3_max sdos current_k = Inl msg"
  using assms by (simp add: get_sdos_def and_then_def Let_def)

lemma BtH_overlap_decreasing:
  "iG3_max < iG3_min \<Longrightarrow>
     BtH_overlap nx ny nz num_bands band_min n_bands
       iG1_min iG2_min iG3_min iG1_max iG2_max iG3_max
     = Inl ''req'ed G vectors must be incrementing (min<=max)''"
  by (simp add: BtH_overlap_def)

text \<open>
  C2 (the dataset \<open>iGspan\<close> holds iG1\_min, iG1\_max, iG2\_min, iG2\_max, iG3\_min, iG3\_max)
  fails on the code: the initialiser of \<open>iGspan\<close> repeats \<open>iG2_min, iG2_max\<close> in its
  last two slots.  For the index ranges 2..2, 1..1 and 0..1 (on a grid of
  \<open>8 \<times> 8 \<times> 8\<close> points, with one band) the dataset holds
  \<open>2, 2, 1, 1, 1, 1\<close>, not \<open>2, 2, 1, 1, 0, 1\<close>, under the description attribute that
  names iG3\_min and iG3\_max.
\<close>

theorem get_sdos_iGspan_contents:
  "\<exists>lib. get_sdos initial_lib True 8 8 8 1 ''out-sdos.k1'' 0 1 1 0 1 2 2 1 1 0 1 (ramp 5) (ramp 7) = Inr lib \<and>
     map_option ds_data (datasets lib ''iGspan'') = Some [2, 2, 1, 1, 1, 1] \<and>
     map_option ds_attrs (datasets lib ''iGspan'') =
       Some [(''description'', ''iG1_min, iG1_max, iG2_min, iG2_max, iG3_min, iG3_max'')]"
  by (simp add: sdos_eval)

text \<open>
  C9 (every dataset identifier obtained from \<open>matrixio_create_dataset\<close> is closed before
  the container is) fails on the code: the variable \<open>data_id\<close> is overwritten by each
  creation and closed once, after the last.  When \<open>get_sdos\<close> returns, the container is
  closed, the identifier of \<open>kpoint\<close> (4) is closed, and the identifiers of \<open>sdos\<close>,
  \<open>freqspan\<close> and \<open>iGspan\<close> (1, 2, 3) are still open.
\<close>

theorem get_sdos_leaves_handles_open:
  "\<exists>lib. get_sdos initial_lib True 8 8 8 1 ''out-sdos.k1'' 0 1 1 0 1 2 2 1 1 0 1 (ramp 5) (ramp 7) = Inr lib \<and>
     container lib = None \<and> handles lib 4 = None \<and>
     handles lib 1 = Some ''sdos'' \<and> handles lib 2 = Some ''freqspan'' \<and>
     handles lib 3 = Some ''iGspan''"
  by (simp add: sdos_eval)

section \<open>Collective group creation: exactly one creation\<close>

lemma Inv_init: "0 < K \<Longrightarrow> Inv K init"
  by (simp add: Inv_def init_def matrixio_create_sub_def process_is_master_def creations_def all_arrived_def list_all_iff)

lemma step_outside: "\<not> p < K \<Longrightarrow> step K p w = w"
  by (simp add: step_def)

lemma step_done: "progs w p = [] \<Longrightarrow> step K p w = w"
  by (simp add: step_def)

lemma step_action:
  "p < K \<Longrightarrow> progs w p = a # rest \<Longrightarrow> a \<noteq> Barrier \<Longrightarrow>
     step K p w = w\<lparr>progs := (progs w)(p := rest), trace := (p, a) # trace w\<rparr>"
  by (simp add: step_def)

lemma step_arrive:
  "p < K \<Longrightarrow> progs w p = Barrier # rest \<Longrightarrow> \<not> arrived w p \<Longrightarrow>
     step K p w = w\<lparr>arrived := (arrived w)(p := True), trace := (p, Barrier) # trace w\<rparr>"
  by (simp add: step_def)

lemma step_leave:
  "p < K \<Longrightarrow> progs w p = Barrier # rest \<Longrightarrow> arrived w p \<Longrightarrow> all_arrived K w \<Longrightarrow>
     step K p w = w\<lparr>progs := (progs w)(p := rest)\<rparr>"
  by (simp add: step_def)

lemma step_blocked:
  "p < K \<Longrightarrow> progs w p = Barrier # rest \<Longrightarrow> arrived w p \<Longrightarrow> \<not> all_arrived K w \<Longrightarrow>
     step K p w = w"
  by (simp add: step_def)

lemmas Inv_simps = Inv_def creations_def all_arrived_def list_all_iff

lemma Inv_master_action:
  assumes "Inv K w" "0 < K" "progs w 0 = a # rest" "a \<noteq> Barrier"
  shows "Inv K (w\<lparr>progs := (progs w)(0 := rest), trace := (0, a) # trace w\<rparr>)"
proof -
  from assms consider "a = Gcreate" "rest = [Attr, Flush, Barrier]"
    | "a = Attr" "rest = [Flush, Barrier]" | "a = Flush" "rest = [Barrier]"
    by (auto simp: Inv_def)
  then show ?thesis
  proof cases
    case 1
    with assms show ?thesis by (auto simp: Inv_simps)
  next
    case 2
    with assms show ?thesis by (auto simp: Inv_simps)
  next
    case 3
    with assms show ?thesis by (auto simp: Inv_simps)
  qed
qed

lemma Inv_other_shape: "Inv K w \<Longrightarrow> 0 < p \<Longrightarrow> progs w p \<in> {[Barrier, Gopen], [Gopen], []}"
  by (simp add: Inv_def)

lemma Inv_other_passed:
  "Inv K w \<Longrightarrow> 0 < p \<Longrightarrow> p < K \<Longrightarrow> progs w p \<noteq> [Barrier, Gopen] \<Longrightarrow> all_arrived K w"
  by (simp add: Inv_def)

lemma Inv_arrived_trace:
  "Inv K w \<Longrightarrow> p < K \<Longrightarrow> arrived w p \<longleftrightarrow> (p, Barrier) \<in> set (trace w)"
  by (simp add: Inv_def)

lemma Inv_other_action:
  assumes inv: "Inv K w" and p: "0 < p" "p < K" and prog: "progs w p = a # rest" "a \<noteq> Barrier"
  shows "Inv K (w\<lparr>progs := (progs w)(p := rest), trace := (p, a) # trace w\<rparr>)"
proof -
  from Inv_other_shape [OF inv p(1)] prog have shape: "a = Gopen" "rest = []"
    by auto
  from Inv_other_passed [OF inv p] prog shape have arr: "all_arrived K w"
    by simp
  have tr: "list_all (\<lambda>q. (q, Barrier) \<in> set (trace w)) [0..<K]"
    using arr Inv_arrived_trace [OF inv] by (simp add: all_arrived_def list_all_iff)
  from p have p0: "p \<noteq> 0" by simp
  show ?thesis
    using inv arr tr p0 unfolding Inv_def shape
    by (simp add: creations_def all_arrived_def)
qed

lemma all_arrived_progs: "all_arrived K (w\<lparr>progs := f\<rparr>) = all_arrived K w"
  by (simp add: all_arrived_def)

lemma all_arrived_arrive:
  "all_arrived K w \<Longrightarrow>
     all_arrived K (w\<lparr>arrived := (arrived w)(p := True), trace := t\<rparr>)"
  by (simp add: all_arrived_def list_all_iff)

lemma Inv_other_arrive:
  assumes inv: "Inv K w" and p: "0 < p" "p < K"
    and prog: "progs w p = Barrier # rest" "\<not> arrived w p"
  shows "Inv K (w\<lparr>arrived := (arrived w)(p := True), trace := (p, Barrier) # trace w\<rparr>)"
proof -
  from p have p0: "p \<noteq> 0" by simp
  show ?thesis
    using inv p0 unfolding Inv_def
    by (simp add: creations_def all_arrived_arrive)
qed

lemma Inv_other_leave:
  assumes inv: "Inv K w" and p: "0 < p" "p < K"
    and prog: "progs w p = Barrier # rest" "arrived w p" "all_arrived K w"
  shows "Inv K (w\<lparr>progs := (progs w)(p := rest)\<rparr>)"
proof -
  from Inv_other_shape [OF inv p(1)] prog have shape: "rest = [Gopen]"
    by auto
  from p have p0: "p \<noteq> 0" by simp
  show ?thesis
    using inv p0 prog(3) unfolding Inv_def shape
    by (simp add: creations_def all_arrived_progs)
qed

lemma Inv_master_arrive:
  assumes "Inv K w" "0 < K" "progs w 0 = Barrier # rest" "\<not> arrived w 0"
  shows "Inv K (w\<lparr>arrived := (arrived w)(0 := True), trace := (0, Barrier) # trace w\<rparr>)"
proof -
  from assms have "rest = []"
    by (auto simp: Inv_def)
  with assms show ?thesis
    by (auto simp: Inv_simps)
qed

lemma Inv_master_leave:
  assumes "Inv K w" "0 < K" "progs w 0 = Barrier # rest" "arrived w 0" "all_arrived K w"
  shows "Inv K (w\<lparr>progs := (progs w)(0 := rest)\<rparr>)"
proof -
  from assms have "rest = []"
    by (auto simp: Inv_def)
  with assms show ?thesis
    by (auto simp: Inv_simps)
qed

lemma Inv_step:
  assumes inv: "Inv K w" and K: "0 < K"
  shows "Inv K (step K p w)"
proof (cases "p < K")
  case False
  with inv show ?thesis by (simp add: step_outside)
next
  case pK: True
  show ?thesis
  proof (cases "progs w p")
    case Nil
    with inv show ?thesis by (simp add: step_done)
  next
    case (Cons a rest)
    show ?thesis
    proof (cases "a = Barrier")
      case False
      show ?thesis
      proof (cases "p = 0")
        case True
        with inv K Cons False show ?thesis
          by (simp add: step_action Inv_master_action)
      next
        case False
        with inv pK Cons \<open>a \<noteq> Barrier\<close> show ?thesis
          by (simp add: step_action Inv_other_action)
      qed
    next
      case True
      note bar = Cons [unfolded True]
      show ?thesis
      proof (cases "arrived w p")
        case False
        show ?thesis
        proof (cases "p = 0")
          case True
          with inv K bar False show ?thesis
            by (simp add: step_arrive Inv_master_arrive)
        next
          case False
          with inv pK bar \<open>\<not> arrived w p\<close> show ?thesis
            by (simp add: step_arrive Inv_other_arrive)
        qed
      next
        case arr: True
        show ?thesis
        proof (cases "all_arrived K w")
          case False
          with inv pK bar arr show ?thesis
            by (simp add: step_blocked)
        next
          case True
          show ?thesis
          proof (cases "p = 0")
            case p0: True
            with inv K bar arr True show ?thesis
              by (simp add: step_leave Inv_master_leave)
          next
            case False
            with inv pK bar arr True show ?thesis
              by (simp add: step_leave Inv_other_leave)
          qed
        qed
      qed
    qed
  qed
qed

lemma Inv_fold: "Inv K w \<Longrightarrow> 0 < K \<Longrightarrow> Inv K (fold (step K) sched w)"
  by (induction sched arbitrary: w) (simp_all add: Inv_step)

lemma Inv_run: "0 < K \<Longrightarrow> Inv K (run K sched)"
  by (simp add: run_def Inv_fold Inv_init)

lemma changed_trace: "w\<lparr>progs := f, trace := x # trace w\<rparr> \<noteq> w"
proof
  assume "w\<lparr>progs := f, trace := x # trace w\<rparr> = w"
  then have "trace (w\<lparr>progs := f, trace := x # trace w\<rparr>) = trace w"
    by simp
  then show False by simp
qed

lemma changed_arrived: "\<not> arrived w p \<Longrightarrow> w\<lparr>arrived := (arrived w)(p := True), trace := t\<rparr> \<noteq> w"
proof
  assume a: "\<not> arrived w p" and "w\<lparr>arrived := (arrived w)(p := True), trace := t\<rparr> = w"
  then have "arrived (w\<lparr>arrived := (arrived w)(p := True), trace := t\<rparr>) p = arrived w p"
    by simp
  with a show False by simp
qed

lemma changed_progs: "progs w p = a # rest \<Longrightarrow> w\<lparr>progs := (progs w)(p := rest)\<rparr> \<noteq> w"
proof
  assume a: "progs w p = a # rest" and "w\<lparr>progs := (progs w)(p := rest)\<rparr> = w"
  then have "progs (w\<lparr>progs := (progs w)(p := rest)\<rparr>) p = progs w p"
    by simp
  with a show False by simp
qed

text \<open>No deadlock: in a reachable state, either every process has returned or some process can move.\<close>

lemma Inv_progress:
  assumes inv: "Inv K w" and K: "0 < K" and nf: "\<not> finished K w"
  shows "\<exists>p<K. step K p w \<noteq> w"
proof (cases "progs w 0")
  case Nil
  with inv have arr: "all_arrived K w"
    by (simp add: Inv_def)
  from nf obtain p where p: "p < K" "progs w p \<noteq> []"
    by (auto simp: finished_def list_all_iff)
  with Nil have p0: "0 < p"
    by (cases p) auto
  from arr p(1) have ap: "arrived w p"
    by (simp add: all_arrived_def list_all_iff)
  from Inv_other_shape [OF inv p0] p(2) consider "progs w p = [Barrier, Gopen]" | "progs w p = [Gopen]"
    by auto
  then have "step K p w \<noteq> w"
  proof cases
    case 1
    then show ?thesis
      using p(1) ap arr by (simp add: step_leave changed_progs)
  next
    case 2
    then show ?thesis
      using p(1) by (simp add: step_action changed_trace)
  qed
  with p(1) show ?thesis by blast
next
  case (Cons a rest)
  show ?thesis
  proof (cases "a = Barrier")
    case False
    with Cons K have "step K 0 w \<noteq> w"
      by (simp add: step_action changed_trace)
    with K show ?thesis by blast
  next
    case True
    note bar = Cons [unfolded True]
    show ?thesis
    proof (cases "arrived w 0")
      case False
      with bar K have "step K 0 w \<noteq> w"
        by (simp add: step_arrive changed_arrived)
      with K show ?thesis by blast
    next
      case a0: True
      show ?thesis
      proof (cases "all_arrived K w")
        case True
        with bar K a0 have "step K 0 w \<noteq> w"
          by (simp add: step_leave changed_progs)
        with K show ?thesis by blast
      next
        case False
        then obtain q where q: "q < K" "\<not> arrived w q"
          by (auto simp: all_arrived_def list_all_iff)
        with a0 have q0: "0 < q"
          by (cases q) auto
        from Inv_other_passed [OF inv q0 q(1)] False have "progs w q = [Barrier, Gopen]"
          by blast
        with q have "step K q w \<noteq> w"
          by (simp add: step_arrive changed_arrived)
        with q(1) show ?thesis by blast
      qed
    qed
  qed
qed

lemma step_decreases:
  assumes p: "p < K" and ch: "step K p w \<noteq> w"
  shows "remaining K (step K p w) < remaining K w"
proof -
  let ?f = "\<lambda>w q. 2 * length (progs w q) + (if arrived w q then 0 else (1::nat))"
  have at_p: "?f (step K p w) p < ?f w p"
    using p ch by (auto simp: step_def split: list.splits if_splits)
  have others: "?f (step K p w) q \<le> ?f w q" for q
    using p by (auto simp: step_def split: list.splits if_splits)
  have "(\<Sum>q<K. ?f (step K p w) q) < (\<Sum>q<K. ?f w q)"
  proof (rule sum_strict_mono_ex1)
    show "finite {..<K}" by simp
    show "\<forall>q\<in>{..<K}. ?f (step K p w) q \<le> ?f w q"
      using others by blast
    show "\<exists>q\<in>{..<K}. ?f (step K p w) q < ?f w q"
      using p at_p by blast
  qed
  then show ?thesis
    by (simp add: remaining_def)
qed

lemma can_finish:
  assumes "Inv K w" "0 < K"
  shows "\<exists>more. finished K (fold (step K) more w)"
  using assms
proof (induction "remaining K w" arbitrary: w rule: less_induct)
  case less
  show ?case
  proof (cases "finished K w")
    case True
    then have "finished K (fold (step K) [] w)" by simp
    then show ?thesis by blast
  next
    case False
    from Inv_progress [OF less.prems False] obtain p where p: "p < K" "step K p w \<noteq> w"
      by blast
    have "remaining K (step K p w) < remaining K w"
      using p by (rule step_decreases)
    moreover have "Inv K (step K p w)"
      using less.prems by (rule Inv_step)
    ultimately obtain more where "finished K (fold (step K) more (step K p w))"
      using less.hyps less.prems(2) by blast
    then have "finished K (fold (step K) (p # more) w)"
      by simp
    then show ?thesis by blast
  qed
qed

text \<open>
  C7: for every group size \<open>K\<close> and every schedule (every interleaving of the processes
  and every order of arrival at the barrier), at most one \<open>H5Gcreate\<close> has been made,
  and exactly one when every process has returned; \<open>H5Gcreate\<close>, \<open>add_string_attr\<close> and
  \<open>H5Fflush\<close> are only ever called by the coordinator, never by a follower; the
  coordinator has flushed before it enters the barrier, and a follower opens the group
  only after every process, the coordinator included, has entered the barrier.  Every
  partial run can be continued to one in which all the processes return.
\<close>

theorem create_sub_exactly_once:
  assumes K: "0 < K"
  shows "creations (run K sched) \<le> 1 \<and>
         (finished K (run K sched) \<longrightarrow> creations (run K sched) = 1) \<and>
         (\<forall>(p, a)\<in>set (trace (run K sched)). a \<in> {Gcreate, Attr, Flush} \<longrightarrow> p = 0) \<and>
         protocol_order K (trace (run K sched)) \<and>
         (\<exists>more. finished K (run K (sched @ more)))"
proof -
  have inv: "Inv K (run K sched)"
    using K by (rule Inv_run)
  have c: "creations (run K sched) \<le> 1"
    using inv by (simp add: Inv_def)
  have f: "creations (run K sched) = 1" if "finished K (run K sched)"
  proof -
    from that K have "progs (run K sched) 0 = []"
      by (simp add: finished_def list_all_iff)
    with inv show ?thesis by (simp add: Inv_def)
  qed
  have m: "\<forall>(p, a)\<in>set (trace (run K sched)). a \<in> {Gcreate, Attr, Flush} \<longrightarrow> p = 0"
    using inv by (simp add: Inv_def)
  have o: "protocol_order K (trace (run K sched))"
    using inv by (simp add: Inv_def)
  from can_finish [OF inv K] obtain more where "finished K (fold (step K) more (run K sched))"
    by blast
  then have e: "\<exists>more. finished K (run K (sched @ more))"
    by (auto simp: run_def)
  from c f m o e show ?thesis
    by blast
qed

lemmas run_eval = run_def example_schedule_def init_def step_def all_arrived_def upt_rec
  matrixio_create_sub_def process_is_master_def finished_def creations_def

lemma example_trace:
  "rev (trace (run 3 example_schedule)) =
     [(2, Barrier), (0, Gcreate), (1, Barrier), (0, Attr), (0, Flush), (0, Barrier),
      (1, Gopen), (2, Gopen)]"
  by (simp add: run_eval)

lemma example_finished: "finished 3 (run 3 example_schedule)"
  by (simp add: run_eval)

theorem create_sub_exactly_once_witness:
  "finished 3 (run 3 example_schedule) \<and> creations (run 3 example_schedule) = 1 \<and>
   protocol_order 3 (trace (run 3 example_schedule)) \<and>
   rev (trace (run 3 example_schedule)) =
     [(2, Barrier), (0, Gcreate), (1, Barrier), (0, Attr), (0, Flush), (0, Barrier),
      (1, Gopen), (2, Gopen)]"
  using create_sub_exactly_once [of 3 example_schedule] example_finished example_trace
  by simp

end
